theory Spec2Isabelle
  imports Complex_Main "HOL-Library.AList" "HOL-Library.Char_ord" "HOL-Library.List_Lexorder"
begin

section \<open>Python and Flask values\<close>

text \<open>
  The controller \<^verbatim>\<open>src/controllers/projects/controller.py\<close> is a set of Flask view
  functions. A view either returns a value or lets an exception escape (which Flask turns into
  a server error), so a view's result is \<open>exn + view_result\<close>.
\<close>

datatype exn = KeyError | IndexError | InvalidPair | NotFound | StoreUnavailable

text \<open>Values a session cookie can hold; \<open>truthy\<close> is Python's truth value, read by \<^verbatim>\<open>not\<close>.\<close>

datatype pyval = PNone | PBool bool | PInt int | PStr string

fun truthy :: "pyval \<Rightarrow> bool" where
  "truthy PNone = False"
| "truthy (PBool b) = b"
| "truthy (PInt i) = (i \<noteq> 0)"
| "truthy (PStr s) = (s \<noteq> [])"

text \<open>\<^verbatim>\<open>session.get(k)\<close>: a missing key reads as \<^verbatim>\<open>None\<close>.\<close>

definition session_get :: "(string \<rightharpoonup> pyval) \<Rightarrow> string \<Rightarrow> pyval" where
  "session_get s k = (case s k of None \<Rightarrow> PNone | Some v \<Rightarrow> v)"

text \<open>\<^verbatim>\<open>session[k]\<close>: a missing key raises \<^verbatim>\<open>KeyError\<close>.\<close>

definition session_item :: "(string \<rightharpoonup> pyval) \<Rightarrow> string \<Rightarrow> exn + pyval" where
  "session_item s k = (case s k of None \<Rightarrow> Inl KeyError | Some v \<Rightarrow> Inr v)"

datatype json = JNull | JBool bool | JInt int | JStr string | JList "json list"
  | JObj "(string \<times> json) list"

text \<open>
  What a view returns: the triple \<^verbatim>\<open>jsonify(d), status, headers\<close>, a bare
  \<^verbatim>\<open>jsonify(d)\<close>, a bare string, or a rendered template.
\<close>

datatype view_result =
    Json_tuple json nat "(string \<times> string) list"
  | Json json
  | Text string
  | Template string

text \<open>Flask answers with status 200 when the view gives no status of its own.\<close>

fun status_code :: "view_result \<Rightarrow> nat" where
  "status_code (Json_tuple _ s _) = s"
| "status_code (Json _) = 200"
| "status_code (Text _) = 200"
| "status_code (Template _) = 200"

fun json_body :: "view_result \<Rightarrow> json option" where
  "json_body (Json_tuple j _ _) = Some j"
| "json_body (Json j) = Some j"
| "json_body (Text _) = None"
| "json_body (Template _) = None"

text \<open>Lookup of a key in a JSON object (the first binding wins).\<close>

fun json_field :: "json \<Rightarrow> string \<Rightarrow> json option" where
  "json_field (JObj kvs) k = map_of kvs k"
| "json_field _ k = None"

definition content_json :: "(string \<times> string) list" where
  "content_json = [(''ContentType'', ''application/json'')]"

text \<open>\<^verbatim>\<open>str(n)\<close> for a Python int.\<close>

fun str_nat :: "nat \<Rightarrow> string" where
  "str_nat n = (if n < 10 then [''0123456789'' ! n]
                else str_nat (n div 10) @ [''0123456789'' ! (n mod 10)])"

declare str_nat.simps [simp del]

definition str_int :: "int \<Rightarrow> string" where
  "str_int i = (if i < 0 then CHR ''-'' # str_nat (nat (- i)) else str_nat (nat i))"

text \<open>The \<^verbatim>\<open>current_user\<close> of flask-login, as far as the controller reads it.\<close>

record user =
  is_authenticated :: bool
  role :: string
  user_id :: string
  name :: string

text \<open>
  The ambient state of a request that the views read: \<^verbatim>\<open>current_user\<close>,
  \<^verbatim>\<open>session\<close> and \<^verbatim>\<open>request.args\<close>. Every view takes it, and reads of it
  what its source reads.
\<close>

record request_context =
  current_user :: user
  session :: "string \<rightharpoonup> pyval"
  args :: "string \<rightharpoonup> string"

text \<open>An exception ends the view: the rest runs only on a returned value.\<close>

definition and_then :: "exn + 'a \<Rightarrow> ('a \<Rightarrow> exn + 'b) \<Rightarrow> exn + 'b" where
  "and_then r f = (case r of Inl e \<Rightarrow> Inl e | Inr v \<Rightarrow> f v)"

text \<open>
  A call of a data-access method that writes: it may raise, and it leaves a database state
  behind either way. The view's own prints go to a list of lines.
\<close>

type_synonym 'db effect = "'db \<Rightarrow> exn option \<times> 'db"

type_synonym 'db reply = "(exn + view_result) \<times> string list \<times> 'db"

section \<open>The views that record user behaviour\<close>

text \<open>
  \<^verbatim>\<open>project_page\<close>: when the query string has both \<^verbatim>\<open>from\<close> and
  \<^verbatim>\<open>project_id\<close>, one call of \<^verbatim>\<open>update_match_percent\<close> with 0.05, outside any
  \<^verbatim>\<open>try\<close>; then the template.
\<close>

definition project_page ::
  "request_context \<Rightarrow> (string \<Rightarrow> string \<Rightarrow> real \<Rightarrow> 'db effect) \<Rightarrow> 'db \<Rightarrow> 'db reply" where
  "project_page ctx update_match_percent db =
     (case (args ctx ''from'', args ctx ''project_id'') of
        (Some from_id, Some project_id) \<Rightarrow>
          (case update_match_percent from_id project_id (5 / 100) db of
             (Some e, db') \<Rightarrow> (Inl e, [], db')
           | (None, db') \<Rightarrow> (Inr (Template ''project.html''), [], db'))
      | _ \<Rightarrow> (Inr (Template ''project.html''), [], db))"

text \<open>\<^verbatim>\<open>add_view\<close>: the bare \<^verbatim>\<open>except\<close> prints and returns the empty string.\<close>

definition add_view ::
  "request_context \<Rightarrow> (int \<Rightarrow> int \<Rightarrow> 'db effect) \<Rightarrow> int \<Rightarrow> 'db \<Rightarrow> 'db reply" where
  "add_view ctx add_view_count p_id db =
     (case add_view_count p_id 1 db of
        (None, db') \<Rightarrow> (Inr (Json_tuple (JObj [(''success'', JBool True)]) 200 content_json), [], db')
      | (Some e, db') \<Rightarrow>
          (Inr (Text ''''), [''Failed to count a view for project '' @ str_int p_id @ ''.''], db'))"

text \<open>
  \<^verbatim>\<open>register_user_data\<close>: the view count, then the click when the session has a
  \<^verbatim>\<open>session_id\<close> that is not \<^verbatim>\<open>None\<close>; any exception leads to the 400 branch.
\<close>

definition register_user_data ::
  "request_context \<Rightarrow> (int \<Rightarrow> int \<Rightarrow> 'db effect) \<Rightarrow> (int \<Rightarrow> pyval \<Rightarrow> 'db effect) \<Rightarrow>
     int \<Rightarrow> 'db \<Rightarrow> 'db reply" where
  "register_user_data ctx add_view_count add_project_click p_id db =
     (let ok = Inr (Json_tuple (JObj [(''success'', JBool True)]) 200 content_json);
          failed = Inr (Json_tuple
                     (JObj [(''success'', JBool True),
                            (''message'', JStr (''Failed to register user behaviour for project ''
                                                 @ str_int p_id @ ''.''))])
                     400 content_json)
      in case add_view_count p_id 1 db of
           (Some e, db1) \<Rightarrow> (failed, [], db1)
         | (None, db1) \<Rightarrow>
             if session_get (session ctx) ''session_id'' \<noteq> PNone then
               (case add_project_click p_id (session_get (session ctx) ''session_id'') db1 of
                  (Some e, db2) \<Rightarrow> (failed, [], db2)
                | (None, db2) \<Rightarrow> (ok, [], db2))
             else (ok, [], db1))"

text \<open>
  \<^verbatim>\<open>update_recommendations\<close>: the same pattern as \<^verbatim>\<open>add_view\<close>. Its source reads
  neither \<^verbatim>\<open>current_user\<close> nor the session.
\<close>

definition update_recommendations ::
  "request_context \<Rightarrow> (int \<Rightarrow> int \<Rightarrow> real \<Rightarrow> 'db effect) \<Rightarrow> int \<Rightarrow> int \<Rightarrow> real \<Rightarrow> 'db \<Rightarrow> 'db reply" where
  "update_recommendations ctx update_match_percent p1_id p2_id amount db =
     (case update_match_percent p1_id p2_id amount db of
        (None, db') \<Rightarrow> (Inr (Json_tuple (JObj [(''success'', JBool True)]) 200 content_json), [], db')
      | (Some e, db') \<Rightarrow>
          (Inr (Text ''''),
           [''Failed to update recommendations for project '' @ str_int p1_id
              @ '' and project '' @ str_int p2_id @ ''.''], db'))"

section \<open>The view that selects related projects\<close>

text \<open>
  The objects the data-access layer hands out, with the attributes the controller and the
  selection read. \<open>liked\<close> is the attribute \<^verbatim>\<open>get_all_project_data\<close> sets on the
  project of a student.
\<close>

record project =
  project_id :: int
  research_group :: string
  is_active :: bool
  view_count :: nat
  liked :: "bool option"

record link =
  project_1 :: int
  project_2 :: int
  match_percent :: real

text \<open>
  The data-access methods \<^verbatim>\<open>get_all_project_data\<close> calls. Their classes
  (\<^verbatim>\<open>ProjectDataAccess\<close>, \<^verbatim>\<open>LinkDataAccess\<close>, \<^verbatim>\<open>LikeDataAccess\<close>,
  \<^verbatim>\<open>ResearchGroupDataAccess\<close>) are imported from \<^verbatim>\<open>src.models\<close>, so the view takes
  them as parameters; each may raise.
\<close>

record dao =
  get_project :: "int \<Rightarrow> bool \<Rightarrow> exn + project"
  is_liked :: "int \<Rightarrow> string \<Rightarrow> exn + bool"
  get_links_for_project :: "int \<Rightarrow> exn + link list"
  get_most_viewed_projects :: "nat \<Rightarrow> bool \<Rightarrow> exn + project list"
  get_research_group :: "string \<Rightarrow> exn + json"

text \<open>
  \<^verbatim>\<open>linked_projects_data\<close> is a Python set: a list without repetition, in the order of
  insertion; \<^verbatim>\<open>len\<close> is its length. The class \<^verbatim>\<open>Project\<close> and its equality are not
  in the controller: two objects are the same element when they are equal as records. The
  order of a Python set is not fixed, so the results below speak of membership and length.
\<close>

definition set_add :: "'a \<Rightarrow> 'a list \<Rightarrow> 'a list" where
  "set_add x s = (if x \<in> set s then s else s @ [x])"

text \<open>
  The \<^verbatim>\<open>for link in linked_projects\<close> loop: it stops at four members, and adds whatever
  \<^verbatim>\<open>get_project(link.project_2, active_only)\<close> returns.
\<close>

fun add_linked ::
  "(int \<Rightarrow> bool \<Rightarrow> exn + project) \<Rightarrow> bool \<Rightarrow> link list \<Rightarrow> project list \<Rightarrow> exn + project list" where
  "add_linked gp active_only [] acc = Inr acc"
| "add_linked gp active_only (l # ls) acc =
     (if length acc \<ge> 4 then Inr acc
      else case gp (project_2 l) active_only of
             Inl e \<Rightarrow> Inl e
           | Inr q \<Rightarrow> add_linked gp active_only ls (set_add q acc))"

text \<open>
  The \<^verbatim>\<open>while len(linked_projects_data) < 4\<close> loop over the most-viewed batch:
  \<^verbatim>\<open>projects_most_views[i]\<close> raises \<^verbatim>\<open>IndexError\<close> once \<open>i\<close> reaches the length of
  the batch.
\<close>

function fill_most_viewed :: "int \<Rightarrow> project list \<Rightarrow> nat \<Rightarrow> project list \<Rightarrow> exn + project list" where
  "fill_most_viewed p_id projects_most_views i acc =
     (if length acc < 4 then
        (if i < length projects_most_views then
           fill_most_viewed p_id projects_most_views (Suc i)
             (if project_id (projects_most_views ! i) \<noteq> p_id
              then set_add (projects_most_views ! i) acc else acc)
         else Inl IndexError)
      else Inr acc)"
  by pat_completeness auto
termination
  by (relation "measure (\<lambda>(p_id, mv, i, acc). length mv - i)") auto

declare fill_most_viewed.simps [simp del]

text \<open>What the view puts into its JSON answer, before \<^verbatim>\<open>to_dict\<close> and \<^verbatim>\<open>jsonify\<close>.\<close>

record project_reply =
  project_data :: project
  research_group_data :: "json option"
  links :: "project list"

definition get_all_project_data :: "request_context \<Rightarrow> dao \<Rightarrow> int \<Rightarrow> exn + project_reply" where
  "get_all_project_data ctx d p_id =
     and_then (session_item (session ctx) ''archive'') (\<lambda>archive.
     let active_only = \<not> truthy archive in
     and_then (get_project d p_id active_only) (\<lambda>p_data0.
     and_then
       (if is_authenticated (current_user ctx) \<and> role (current_user ctx) = ''student''
        then and_then (is_liked d (project_id p_data0) (user_id (current_user ctx)))
               (\<lambda>b. Inr (p_data0\<lparr>liked := Some b\<rparr>))
        else Inr p_data0) (\<lambda>p_data.
     and_then (get_links_for_project d p_id) (\<lambda>linked_projects.
     and_then (add_linked (get_project d) active_only linked_projects []) (\<lambda>linked.
     and_then
       (if length linked < 4
        then and_then (get_most_viewed_projects d 8 active_only)
               (\<lambda>projects_most_views. fill_most_viewed p_id projects_most_views 0 linked)
        else Inr linked) (\<lambda>linked_projects_data.
     Inr \<lparr>project_data = p_data,
          research_group_data =
            (case get_research_group d (research_group p_data) of
               Inl e \<Rightarrow> None
             | Inr g \<Rightarrow> Some g),
          links = linked_projects_data\<rparr>))))))"

text \<open>
  \<^verbatim>\<open>search\<close>, one of the views that read the flag with \<^verbatim>\<open>session.get("archive")\<close>.
\<close>

definition search ::
  "request_context \<Rightarrow> (string \<Rightarrow> bool \<Rightarrow> exn + json) \<Rightarrow> string \<Rightarrow> exn + view_result" where
  "search ctx project_search search_query =
     (let active_only = \<not> truthy (session_get (session ctx) ''archive'')
      in case project_search search_query active_only of
           Inl e \<Rightarrow> Inl e
         | Inr results \<Rightarrow> Inr (Json results))"

section \<open>The data-access layer, from the specification\<close>

text \<open>
  Modelled from the spec: the project catalog behind \<^verbatim>\<open>ProjectDataAccess\<close>, whose source is
  not part of the controller. \<open>fetch_project(id, active_only)\<close> is "ProjectSummary or
  not-found" (section 6); not-found is the \<open>NotFound\<close> error of section 7. With
  \<open>active_only\<close> an archived project is not a candidate (section 4.3).
\<close>

definition passes_filter :: "bool \<Rightarrow> project \<Rightarrow> bool" where
  "passes_filter active_only q = (if active_only then is_active q else True)"

definition fetch_project :: "project list \<Rightarrow> int \<Rightarrow> bool \<Rightarrow> exn + project" where
  "fetch_project catalog i active_only =
     (case find (\<lambda>q. project_id q = i \<and> passes_filter active_only q) catalog of
        None \<Rightarrow> Inl NotFound
      | Some q \<Rightarrow> Inr q)"

text \<open>Insertion sort by a comparison, for the two orders the specification fixes.\<close>

fun insort_by :: "('a \<Rightarrow> 'a \<Rightarrow> bool) \<Rightarrow> 'a \<Rightarrow> 'a list \<Rightarrow> 'a list" where
  "insort_by le x [] = [x]"
| "insort_by le x (y # ys) = (if le x y then x # y # ys else y # insort_by le x ys)"

definition sort_by :: "('a \<Rightarrow> 'a \<Rightarrow> bool) \<Rightarrow> 'a list \<Rightarrow> 'a list" where
  "sort_by le xs = foldr (insort_by le) xs []"

text \<open>
  Modelled from the spec: \<open>fetch_most_viewed(n, active_only)\<close> of the absent
  \<^verbatim>\<open>ProjectDataAccess\<close>: the projects passing the filter, by view count descending, ties by
  project id ascending, the first \<open>n\<close> of them (sections 4.3 and 6).
\<close>

definition more_viewed :: "project \<Rightarrow> project \<Rightarrow> bool" where
  "more_viewed q r =
     (view_count r < view_count q \<or> (view_count q = view_count r \<and> project_id q \<le> project_id r))"

definition fetch_most_viewed :: "project list \<Rightarrow> nat \<Rightarrow> bool \<Rightarrow> exn + project list" where
  "fetch_most_viewed catalog n active_only =
     Inr (take n (sort_by more_viewed (filter (passes_filter active_only) catalog)))"

text \<open>
  Modelled from the spec: the affinity store behind the absent \<^verbatim>\<open>LinkDataAccess\<close>
  (sections 3 and 4.1). One entry per unordered pair, kept under the key with the smaller
  project first; a strength is a real number (the source's float).
\<close>

type_synonym 'k store = "(('k \<times> 'k) \<times> real) list"

definition pair_key :: "'k::linorder \<Rightarrow> 'k \<Rightarrow> 'k \<times> 'k" where
  "pair_key a b = (if a < b then (a, b) else (b, a))"

definition get_strength :: "'k::linorder store \<Rightarrow> 'k \<Rightarrow> 'k \<Rightarrow> real" where
  "get_strength st a b = (case map_of st (pair_key a b) of None \<Rightarrow> 0 | Some s \<Rightarrow> s)"

definition clamp01 :: "real \<Rightarrow> real" where
  "clamp01 x = max 0 (min 1 x)"

text \<open>
  Modelled from the spec: \<open>reinforce(a, b, delta)\<close> (section 4.1) adds \<open>delta\<close> to the
  strength (0 when there is no link yet), clamps, stores and returns the new value; a pair
  with \<open>a = b\<close> is rejected with \<open>InvalidPair\<close>.
\<close>

definition reinforce :: "'k::linorder \<Rightarrow> 'k \<Rightarrow> real \<Rightarrow> 'k store \<Rightarrow> exn + real \<times> 'k store" where
  "reinforce a b delta st =
     (if a = b then Inl InvalidPair
      else let s = clamp01 (get_strength st a b + delta)
           in Inr (s, AList.update (pair_key a b) s st))"

text \<open>
  Modelled from the spec: \<^verbatim>\<open>LinkDataAccess.update_match_percent\<close>, the method behind
  \<^verbatim>\<open>project_page\<close> and \<^verbatim>\<open>update_recommendations\<close>, is \<open>reinforce\<close>; the views drop
  its value.
\<close>

definition update_match_percent :: "'k::linorder \<Rightarrow> 'k \<Rightarrow> real \<Rightarrow> 'k store effect" where
  "update_match_percent a b amount st =
     (case reinforce a b amount st of
        Inl e \<Rightarrow> (Some e, st)
      | Inr (s, st') \<Rightarrow> (None, st'))"

text \<open>
  Modelled from the spec: \<open>top_links(project_id, limit)\<close> (section 4.1): all links involving
  the project, as (other project, strength), by strength descending, ties by the smaller other
  id, cut at \<open>limit\<close>.
\<close>

definition links_involving :: "'k store \<Rightarrow> 'k \<Rightarrow> ('k \<times> real) list" where
  "links_involving st p =
     map (\<lambda>((a, b), s). (if a = p then b else a, s)) (filter (\<lambda>((a, b), s). a = p \<or> b = p) st)"

definition stronger :: "'k::linorder \<times> real \<Rightarrow> 'k \<times> real \<Rightarrow> bool" where
  "stronger x y = (snd y < snd x \<or> (snd x = snd y \<and> fst x \<le> fst y))"

definition top_links :: "'k::linorder store \<Rightarrow> 'k \<Rightarrow> nat \<Rightarrow> ('k \<times> real) list" where
  "top_links st p limit = take limit (sort_by stronger (links_involving st p))"

text \<open>
  Modelled from the spec: \<^verbatim>\<open>LinkDataAccess.get_links_for_project\<close> is step 1 of the selection
  (section 4.3), \<open>top_links(project_id, limit=4)\<close>; the other project of each link is what
  the view reads as \<^verbatim>\<open>link.project_2\<close>.
\<close>

definition links_for_project :: "int store \<Rightarrow> int \<Rightarrow> exn + link list" where
  "links_for_project st p =
     Inr (map (\<lambda>(other, s). \<lparr>project_1 = p, project_2 = other, match_percent = s\<rparr>)
            (top_links st p 4))"

text \<open>
  The data-access layer over a catalog and an affinity store; the methods the specification
  says nothing about stay those of \<open>base\<close>.
\<close>

definition spec_dao :: "dao \<Rightarrow> project list \<Rightarrow> int store \<Rightarrow> dao" where
  "spec_dao base catalog st =
     base\<lparr>get_project := fetch_project catalog,
          get_links_for_project := links_for_project st,
          get_most_viewed_projects := fetch_most_viewed catalog\<rparr>"

text \<open>
  Modelled from the spec: the signals of section 4.2. A click-through reinforces by the fixed
  0.05, a manual adjustment by any amount; a rejected signal leaves the store as it is.
\<close>

datatype 'k signal = Click_through 'k 'k | Manual_adjustment 'k 'k real

fun ingest :: "'k::linorder store \<Rightarrow> 'k signal \<Rightarrow> 'k store" where
  "ingest st (Click_through a b) = snd (update_match_percent a b (5 / 100) st)"
| "ingest st (Manual_adjustment a b amount) = snd (update_match_percent a b amount st)"

definition ingest_all :: "'k::linorder signal list \<Rightarrow> 'k store" where
  "ingest_all sigs = foldl ingest [] sigs"

section \<open>What a caller observes\<close>

text \<open>
  A caller sees an error when the view lets an exception escape or answers with a status of
  400 or more.
\<close>

definition user_facing_error :: "exn + view_result \<Rightarrow> bool" where
  "user_facing_error r = (case r of Inl e \<Rightarrow> True | Inr v \<Rightarrow> 400 \<le> status_code v)"

text \<open>The status of the answer, when the view returns one.\<close>

definition reply_status :: "exn + view_result \<Rightarrow> nat option" where
  "reply_status r = (case r of Inl e \<Rightarrow> None | Inr v \<Rightarrow> Some (status_code v))"

definition body_field :: "view_result \<Rightarrow> string \<Rightarrow> json option" where
  "body_field v k = (case json_body v of None \<Rightarrow> None | Some j \<Rightarrow> json_field j k)"

text \<open>
  The \<^verbatim>\<open>try\<close> block of \<^verbatim>\<open>register_user_data\<close> raises: the view count fails, or the
  click is recorded and fails.
\<close>

definition register_raises ::
  "request_context \<Rightarrow> (int \<Rightarrow> int \<Rightarrow> 'db effect) \<Rightarrow> (int \<Rightarrow> pyval \<Rightarrow> 'db effect) \<Rightarrow>
     int \<Rightarrow> 'db \<Rightarrow> bool" where
  "register_raises ctx add_view_count add_project_click p_id db =
     (case add_view_count p_id 1 db of
        (Some e, db1) \<Rightarrow> True
      | (None, db1) \<Rightarrow>
          session_get (session ctx) ''session_id'' \<noteq> PNone \<and>
          fst (add_project_click p_id (session_get (session ctx) ''session_id'') db1) \<noteq> None)"

text \<open>The two invariants of the affinity store.\<close>

definition bounded :: "'k store \<Rightarrow> bool" where
  "bounded st = list_all (\<lambda>(k, s). 0 \<le> s \<and> s \<le> 1) st"

definition ordered_keys :: "'k::linorder store \<Rightarrow> bool" where
  "ordered_keys st = list_all (\<lambda>((a, b), s). a < b) st"

section \<open>Example requests and data\<close>

definition anonymous :: user where
  "anonymous = \<lparr>is_authenticated = False, role = [], user_id = [], name = []\<rparr>"

definition admin :: user where
  "admin = \<lparr>is_authenticated = True, role = ''admin'', user_id = ''a1'', name = ''Ann''\<rparr>"

text \<open>
  A first request, with an empty session; one after the archive switch was set; a click from
  project 10 to project 11, and one from project 10 to itself.
\<close>

definition visitor :: request_context where
  "visitor = \<lparr>current_user = anonymous, session = Map.empty, args = Map.empty\<rparr>"

definition browsing :: request_context where
  "browsing = \<lparr>current_user = anonymous, session = [''archive'' \<mapsto> PBool False], args = Map.empty\<rparr>"

definition clicking :: request_context where
  "clicking = \<lparr>current_user = anonymous, session = Map.empty,
               args = [''from'' \<mapsto> ''10'', ''project_id'' \<mapsto> ''11'']\<rparr>"

definition self_clicking :: request_context where
  "self_clicking = \<lparr>current_user = anonymous, session = Map.empty,
                    args = [''from'' \<mapsto> ''10'', ''project_id'' \<mapsto> ''10'']\<rparr>"

text \<open>A store operation that fails.\<close>

definition unavailable :: "'db effect" where
  "unavailable db = (Some StoreUnavailable, db)"

definition mk_project :: "int \<Rightarrow> bool \<Rightarrow> nat \<Rightarrow> project" where
  "mk_project i a v =
     \<lparr>project_id = i, research_group = ''group'', is_active = a, view_count = v, liked = None\<rparr>"

definition plain_dao :: dao where
  "plain_dao =
     \<lparr>get_project = (\<lambda>i active_only. Inl NotFound),
      is_liked = (\<lambda>i u. Inr False),
      get_links_for_project = (\<lambda>i. Inr []),
      get_most_viewed_projects = (\<lambda>n active_only. Inr []),
      get_research_group = (\<lambda>g. Inl NotFound)\<rparr>"

definition three_projects :: "project list" where
  "three_projects = [mk_project 1 True 5, mk_project 2 True 4, mk_project 3 True 3]"

definition six_projects :: "project list" where
  "six_projects = [mk_project 1 True 5, mk_project 2 True 4, mk_project 3 True 3,
                   mk_project 4 True 2, mk_project 5 True 1, mk_project 6 False 9]"

definition two_signals :: "int signal list" where
  "two_signals = [Click_through 2 1, Manual_adjustment 1 3 (4 / 10)]"

lemmas eval_defs =
  get_all_project_data_def and_then_def session_item_def spec_dao_def browsing_def anonymous_def
  plain_dao_def mk_project_def three_projects_def six_projects_def two_signals_def
  fetch_project_def passes_filter_def fetch_most_viewed_def more_viewed_def sort_by_def
  links_for_project_def top_links_def links_involving_def stronger_def
  ingest_all_def update_match_percent_def reinforce_def get_strength_def pair_key_def clamp01_def
  fill_most_viewed.simps set_add_def Let_def

section \<open>The loops of the selection\<close>

lemma set_set_add: "set (set_add x s) = insert x (set s)"
  by (auto simp: set_add_def)

lemma length_set_add: "length (set_add x s) \<le> Suc (length s)"
  by (simp add: set_add_def)

lemma length_set_add_ge: "length s \<le> length (set_add x s)"
  by (simp add: set_add_def)

lemma add_linked_length:
  "add_linked gp ao ls acc = Inr out \<Longrightarrow> length acc \<le> 4 \<Longrightarrow> length out \<le> 4"
proof (induction ls arbitrary: acc)
  case Nil
  then show ?case by simp
next
  case (Cons l ls)
  show ?case
  proof (cases "4 \<le> length acc")
    case True
    with Cons.prems show ?thesis by simp
  next
    case False
    with Cons.prems obtain q where q: "gp (project_2 l) ao = Inr q"
      and rest: "add_linked gp ao ls (set_add q acc) = Inr out"
      by (auto split: sum.splits)
    from False have "length (set_add q acc) \<le> 4"
      using length_set_add [of q acc] by simp
    with Cons.IH rest show ?thesis by blast
  qed
qed

lemma add_linked_members:
  "add_linked gp ao ls acc = Inr out \<Longrightarrow> q \<in> set out \<Longrightarrow>
     q \<in> set acc \<or> (\<exists>l \<in> set ls. gp (project_2 l) ao = Inr q)"
proof (induction ls arbitrary: acc)
  case Nil
  then show ?case by simp
next
  case (Cons l ls)
  show ?case
  proof (cases "4 \<le> length acc")
    case True
    with Cons.prems show ?thesis by simp
  next
    case False
    with Cons.prems obtain r where r: "gp (project_2 l) ao = Inr r"
      and rest: "add_linked gp ao ls (set_add r acc) = Inr out"
      by (auto split: sum.splits)
    from Cons.IH [OF rest Cons.prems(2)] r show ?thesis
      by (auto simp: set_set_add)
  qed
qed

lemma add_linked_keeps:
  "add_linked gp ao ls acc = Inr out \<Longrightarrow> set acc \<subseteq> set out"
proof (induction ls arbitrary: acc)
  case Nil
  then show ?case by simp
next
  case (Cons l ls)
  show ?case
  proof (cases "4 \<le> length acc")
    case True
    with Cons.prems show ?thesis by simp
  next
    case False
    with Cons.prems obtain r where r: "gp (project_2 l) ao = Inr r"
      and rest: "add_linked gp ao ls (set_add r acc) = Inr out"
      by (auto split: sum.splits)
    from Cons.IH [OF rest] show ?thesis
      by (auto simp: set_set_add)
  qed
qed

lemma add_linked_all:
  "add_linked gp ao ls acc = Inr out \<Longrightarrow> length acc + length ls \<le> 4 \<Longrightarrow>
     l \<in> set ls \<Longrightarrow> \<exists>q. gp (project_2 l) ao = Inr q \<and> q \<in> set out"
proof (induction ls arbitrary: acc)
  case Nil
  then show ?case by simp
next
  case (Cons l' ls)
  from Cons.prems(2) have small: "\<not> 4 \<le> length acc" by simp
  with Cons.prems(1) obtain r where r: "gp (project_2 l') ao = Inr r"
    and rest: "add_linked gp ao ls (set_add r acc) = Inr out"
    by (auto split: sum.splits)
  have len: "length (set_add r acc) + length ls \<le> 4"
    using length_set_add [of r acc] Cons.prems(2) by simp
  show ?case
  proof (cases "l = l'")
    case True
    have "r \<in> set (set_add r acc)" by (simp add: set_set_add)
    with add_linked_keeps [OF rest] r True show ?thesis by blast
  next
    case False
    with Cons.prems(3) have "l \<in> set ls" by simp
    from Cons.IH [OF rest len this] show ?thesis .
  qed
qed

lemma fill_most_viewed_length:
  "fill_most_viewed p mv i acc = Inr out \<Longrightarrow> length acc \<le> 4 \<Longrightarrow> length out \<le> 4"
proof (induction p mv i acc rule: fill_most_viewed.induct)
  case (1 p mv i acc)
  show ?case
  proof (cases "length acc < 4")
    case False
    with "1.prems" show ?thesis by (simp add: fill_most_viewed.simps)
  next
    case True
    with "1.prems" have i: "i < length mv"
      by (auto simp: fill_most_viewed.simps [of p mv i acc] split: if_splits)
    let ?acc' = "if project_id (mv ! i) \<noteq> p then set_add (mv ! i) acc else acc"
    from True i "1.prems" have rest: "fill_most_viewed p mv (Suc i) ?acc' = Inr out"
      by (simp add: fill_most_viewed.simps [of p mv i acc])
    from True have "length ?acc' \<le> 4"
      using length_set_add [of "mv ! i" acc] by simp
    from "1.IH" [OF True i rest this] show ?thesis .
  qed
qed

lemma fill_most_viewed_members:
  "fill_most_viewed p mv i acc = Inr out \<Longrightarrow> q \<in> set out \<Longrightarrow>
     q \<in> set acc \<or> (q \<in> set mv \<and> project_id q \<noteq> p)"
proof (induction p mv i acc rule: fill_most_viewed.induct)
  case (1 p mv i acc)
  show ?case
  proof (cases "length acc < 4")
    case False
    with "1.prems" show ?thesis by (simp add: fill_most_viewed.simps)
  next
    case True
    with "1.prems" have i: "i < length mv"
      by (auto simp: fill_most_viewed.simps [of p mv i acc] split: if_splits)
    let ?acc' = "if project_id (mv ! i) \<noteq> p then set_add (mv ! i) acc else acc"
    from True i "1.prems" have rest: "fill_most_viewed p mv (Suc i) ?acc' = Inr out"
      by (simp add: fill_most_viewed.simps [of p mv i acc])
    from "1.IH" [OF True i rest "1.prems"(2)] i show ?thesis
      by (auto simp: set_set_add split: if_splits)
  qed
qed

lemma fill_most_viewed_keeps:
  "fill_most_viewed p mv i acc = Inr out \<Longrightarrow> set acc \<subseteq> set out"
proof (induction p mv i acc rule: fill_most_viewed.induct)
  case (1 p mv i acc)
  show ?case
  proof (cases "length acc < 4")
    case False
    with "1.prems" show ?thesis by (simp add: fill_most_viewed.simps)
  next
    case True
    with "1.prems" have i: "i < length mv"
      by (auto simp: fill_most_viewed.simps [of p mv i acc] split: if_splits)
    let ?acc' = "if project_id (mv ! i) \<noteq> p then set_add (mv ! i) acc else acc"
    from True i "1.prems" have rest: "fill_most_viewed p mv (Suc i) ?acc' = Inr out"
      by (simp add: fill_most_viewed.simps [of p mv i acc])
    from "1.IH" [OF True i rest] show ?thesis
      by (auto simp: set_set_add split: if_splits)
  qed
qed

text \<open>
  When the batch holds too few projects other than \<open>p_id\<close>, the loop runs off its end.
\<close>

lemma fill_most_viewed_exhausted:
  "length acc + length (filter (\<lambda>q. project_id q \<noteq> p) (drop i mv)) < 4 \<Longrightarrow>
     fill_most_viewed p mv i acc = Inl IndexError"
proof (induction p mv i acc rule: fill_most_viewed.induct)
  case (1 p mv i acc)
  from "1.prems" have small: "length acc < 4" by simp
  show ?case
  proof (cases "i < length mv")
    case False
    with small show ?thesis by (simp add: fill_most_viewed.simps [of p mv i acc])
  next
    case True
    let ?acc' = "if project_id (mv ! i) \<noteq> p then set_add (mv ! i) acc else acc"
    from True have drop: "drop i mv = mv ! i # drop (Suc i) mv"
      by (simp add: Cons_nth_drop_Suc)
    have "length ?acc' + length (filter (\<lambda>q. project_id q \<noteq> p) (drop (Suc i) mv)) < 4"
      using "1.prems" length_set_add [of "mv ! i" acc] by (auto simp: drop split: if_splits)
    from "1.IH" [OF small True this] small True show ?thesis
      by (simp add: fill_most_viewed.simps [of p mv i acc])
  qed
qed


lemma get_all_project_data_Inr:
  assumes "get_all_project_data ctx d p = Inr r"
  obtains archive ls linked where
    "session ctx ''archive'' = Some archive"
    "get_links_for_project d p = Inr ls"
    "add_linked (get_project d) (\<not> truthy archive) ls [] = Inr linked"
    "(4 \<le> length linked \<and> links r = linked) \<or>
     (length linked < 4 \<and>
      (\<exists>mv. get_most_viewed_projects d 8 (\<not> truthy archive) = Inr mv \<and>
            fill_most_viewed p mv 0 linked = Inr (links r)))"
  using assms
  by (auto simp: get_all_project_data_def and_then_def session_item_def Let_def
      split: sum.splits option.splits if_splits)

section \<open>The catalog and the affinity store\<close>

lemma fetch_project_Inr:
  "fetch_project catalog i ao = Inr q \<Longrightarrow>
     project_id q = i \<and> passes_filter ao q \<and> q \<in> set catalog"
  by (auto simp: fetch_project_def find_Some_iff split: option.splits)

lemma set_insort_by: "set (insort_by le x xs) = insert x (set xs)"
  by (induction xs) auto

lemma set_sort_by: "set (sort_by le xs) = set xs"
  by (induction xs) (simp_all add: sort_by_def set_insort_by)

lemma length_insort_by: "length (insort_by le x xs) = Suc (length xs)"
  by (induction xs) auto

lemma length_sort_by: "length (sort_by le xs) = length xs"
  by (induction xs) (simp_all add: sort_by_def length_insort_by)

lemma fetch_most_viewed_Inr:
  "fetch_most_viewed catalog n ao = Inr mv \<Longrightarrow> q \<in> set mv \<Longrightarrow> passes_filter ao q"
  by (auto simp: fetch_most_viewed_def set_sort_by dest!: in_set_takeD)

lemma links_involving_other:
  "ordered_keys st \<Longrightarrow> (other, s) \<in> set (links_involving st p) \<Longrightarrow> other \<noteq> p"
  by (auto simp: links_involving_def ordered_keys_def list_all_iff split: if_splits)

lemma links_for_project_other:
  assumes "ordered_keys st" and "links_for_project st p = Inr ls" and "l \<in> set ls"
  shows "project_2 l \<noteq> p"
proof -
  from assms(2,3) obtain other s where "(other, s) \<in> set (top_links st p 4)"
    and l: "l = \<lparr>project_1 = p, project_2 = other, match_percent = s\<rparr>"
    by (auto simp: links_for_project_def)
  then have "(other, s) \<in> set (links_involving st p)"
    by (auto simp: top_links_def set_sort_by dest: in_set_takeD)
  with assms(1) l show ?thesis
    by (auto dest: links_involving_other)
qed

lemma links_involving_link:
  assumes "map_of st (pair_key a b) = Some s" and "a \<noteq> b"
  shows "(b, s) \<in> set (links_involving st a)"
proof -
  from assms(1) have "(pair_key a b, s) \<in> set st" by (rule map_of_SomeD)
  then have "(\<lambda>((x, y), s). (if x = a then y else x, s)) (pair_key a b, s)
      \<in> set (links_involving st a)"
    unfolding links_involving_def set_map
    by (intro imageI) (auto simp: pair_key_def)
  with assms(2) show ?thesis by (auto simp: pair_key_def split: if_splits)
qed


lemma clamp01_bounds: "0 \<le> clamp01 x \<and> clamp01 x \<le> 1"
  by (simp add: clamp01_def)

lemma set_update_subset: "set (AList.update k v al) \<subseteq> insert (k, v) (set al)"
  by (induction al) auto

lemma pair_key_sym: "pair_key a b = pair_key b a"
  by (auto simp: pair_key_def)

lemma pair_key_less: "a \<noteq> b \<Longrightarrow> fst (pair_key a b) < snd (pair_key a b)"
  by (auto simp: pair_key_def)

lemma bounded_update: "bounded st \<Longrightarrow> 0 \<le> v \<Longrightarrow> v \<le> 1 \<Longrightarrow> bounded (AList.update k v st)"
  using set_update_subset [of k v st] by (auto simp: bounded_def list_all_iff)

lemma ordered_keys_update:
  "ordered_keys st \<Longrightarrow> fst k < snd k \<Longrightarrow> ordered_keys (AList.update k v st)"
  using set_update_subset [of k v st] by (auto simp: ordered_keys_def list_all_iff)

lemma update_match_percent_bounded: "bounded st \<Longrightarrow> bounded (snd (update_match_percent a b d st))"
  by (simp add: update_match_percent_def reinforce_def Let_def bounded_update clamp01_bounds)

lemma update_match_percent_ordered:
  "ordered_keys st \<Longrightarrow> ordered_keys (snd (update_match_percent a b d st))"
  by (simp add: update_match_percent_def reinforce_def Let_def ordered_keys_update pair_key_less)

lemma ingest_bounded: "bounded st \<Longrightarrow> bounded (ingest st sg)"
  by (cases sg) (simp_all add: update_match_percent_bounded)

lemma ingest_ordered: "ordered_keys st \<Longrightarrow> ordered_keys (ingest st sg)"
  by (cases sg) (simp_all add: update_match_percent_ordered)

lemma foldl_ingest_bounded: "bounded st \<Longrightarrow> bounded (foldl ingest st sigs)"
  by (induction sigs arbitrary: st) (simp_all add: ingest_bounded)

lemma foldl_ingest_ordered: "ordered_keys st \<Longrightarrow> ordered_keys (foldl ingest st sigs)"
  by (induction sigs arbitrary: st) (simp_all add: ingest_ordered)

lemma ingest_all_bounded: "bounded (ingest_all sigs)"
  unfolding ingest_all_def by (rule foldl_ingest_bounded) (simp add: bounded_def)

lemma ingest_all_ordered: "ordered_keys (ingest_all sigs)"
  unfolding ingest_all_def by (rule foldl_ingest_ordered) (simp add: ordered_keys_def)

lemma bounded_get_strength: "bounded st \<Longrightarrow> 0 \<le> get_strength st a b \<and> get_strength st a b \<le> 1"
  by (auto simp: get_strength_def bounded_def list_all_iff split: option.splits dest!: map_of_SomeD)


section \<open>The claims\<close>

text \<open>
  Claim C1 asks that the selection return the short list, of \<open>min(4, eligible - 1)\<close>
  entries, when the most-viewed batch runs out before four candidates are found. The view does
  not: with three active projects, no links and the request for project 1, the batch is
  \<open>[1, 2, 3]\<close>; after projects 2 and 3 the set has two members, and the read of
  \<^verbatim>\<open>projects_most_views[3]\<close> raises \<^verbatim>\<open>IndexError\<close>.
\<close>

theorem fallback_batch_exhausted_index_error:
  "get_all_project_data browsing (spec_dao plain_dao three_projects []) 1 = Inl IndexError"
  by (simp add: eval_defs)

text \<open>
  Claim C2: a click-through from a project to itself, that is the project page requested with
  \<^verbatim>\<open>from\<close> equal to \<^verbatim>\<open>project_id\<close>, is rejected with \<open>InvalidPair\<close> and leaves the
  affinity store as it was. The view has no check of its own and no \<^verbatim>\<open>try\<close>: the
  rejection is that of the store, and it leaves the view as the exception.
\<close>

theorem self_click_through_rejected:
  assumes "args ctx ''from'' = Some x" and "args ctx ''project_id'' = Some x"
  shows "project_page ctx update_match_percent st = (Inl InvalidPair, [], st)"
  using assms by (simp add: project_page_def update_match_percent_def reinforce_def)

theorem self_click_through_rejected_witness:
  "args self_clicking ''from'' = Some ''10'' \<and> args self_clicking ''project_id'' = Some ''10'' \<and>
   project_page self_clicking update_match_percent [((''10'', ''11''), 1 / 2)] =
     (Inl InvalidPair, [], [((''10'', ''11''), 1 / 2)])"
proof -
  have a: "args self_clicking ''from'' = Some ''10''"
    by (simp add: self_clicking_def)
  have b: "args self_clicking ''project_id'' = Some ''10''"
    by (simp add: self_clicking_def)
  from self_click_through_rejected [OF a b, of "[((''10'', ''11''), 1 / 2)]"] a b
  show ?thesis by simp
qed

text \<open>
  Claim C3: with the active-only filter on, the related projects returned for \<open>p\<close> never
  contain \<open>p\<close>, never contain an archived project, and are at most four; this covers the
  projects added from the links as well as those added from the most-viewed batch. The
  affinity store is any store that signals can build, the catalog is any catalog.
\<close>

theorem related_excludes_self_archived_bounded:
  assumes archive: "session ctx ''archive'' = Some v" and active: "\<not> truthy v"
    and r: "get_all_project_data ctx (spec_dao base catalog (ingest_all sigs)) p = Inr r"
  shows "p \<notin> project_id ` set (links r) \<and> list_all is_active (links r) \<and> length (links r) \<le> 4"
proof -
  let ?d = "spec_dao base catalog (ingest_all sigs)"
  from r obtain archive' ls linked where
    a': "session ctx ''archive'' = Some archive'"
    and ls: "get_links_for_project ?d p = Inr ls"
    and linked: "add_linked (get_project ?d) (\<not> truthy archive') ls [] = Inr linked"
    and rest: "(4 \<le> length linked \<and> links r = linked) \<or>
       (length linked < 4 \<and>
        (\<exists>mv. get_most_viewed_projects ?d 8 (\<not> truthy archive') = Inr mv \<and>
              fill_most_viewed p mv 0 linked = Inr (links r)))"
    by (rule get_all_project_data_Inr)
  from a' archive active have ao: "(\<not> truthy archive') = True" by simp
  have ls': "links_for_project (ingest_all sigs) p = Inr ls"
    using ls by (simp add: spec_dao_def)
  have linked': "add_linked (fetch_project catalog) True ls [] = Inr linked"
    using linked ao by (simp add: spec_dao_def)
  have linked_ok: "project_id q \<noteq> p \<and> is_active q" if "q \<in> set linked" for q
  proof -
    from add_linked_members [OF linked' that] obtain l where l: "l \<in> set ls"
      and q: "fetch_project catalog (project_2 l) True = Inr q" by auto
    from links_for_project_other [OF ingest_all_ordered ls' l] fetch_project_Inr [OF q]
    show ?thesis by (simp add: passes_filter_def)
  qed
  have linked_len: "length linked \<le> 4"
    using add_linked_length [OF linked'] by simp
  from rest show ?thesis
  proof
    assume "4 \<le> length linked \<and> links r = linked"
    with linked_ok linked_len show ?thesis
      by (auto simp: list_all_iff)
  next
    assume "length linked < 4 \<and>
       (\<exists>mv. get_most_viewed_projects ?d 8 (\<not> truthy archive') = Inr mv \<and>
             fill_most_viewed p mv 0 linked = Inr (links r))"
    then obtain mv where mv: "fetch_most_viewed catalog 8 True = Inr mv"
      and fill: "fill_most_viewed p mv 0 linked = Inr (links r)"
      using ao by (auto simp: spec_dao_def)
    have "project_id q \<noteq> p \<and> is_active q" if "q \<in> set (links r)" for q
      using fill_most_viewed_members [OF fill that] linked_ok [of q]
        fetch_most_viewed_Inr [OF mv, of q] by (auto simp: passes_filter_def)
    moreover have "length (links r) \<le> 4"
      using fill_most_viewed_length [OF fill linked_len] .
    ultimately show ?thesis
      by (auto simp: list_all_iff)
  qed
qed

theorem related_excludes_self_archived_bounded_witness:
  "session browsing ''archive'' = Some (PBool False) \<and> \<not> truthy (PBool False) \<and>
   (\<exists>r. get_all_project_data browsing
           (spec_dao plain_dao six_projects (ingest_all two_signals)) 1 = Inr r \<and>
        map project_id (links r) = [3, 2, 4, 5] \<and>
        1 \<notin> project_id ` set (links r) \<and> list_all is_active (links r) \<and> length (links r) \<le> 4)"
proof -
  let ?d = "spec_dao plain_dao six_projects (ingest_all two_signals)"
  have s: "session browsing ''archive'' = Some (PBool False)"
    by (simp add: browsing_def)
  have t: "\<not> truthy (PBool False)"
    by simp
  have ev: "get_all_project_data browsing ?d 1 =
      Inr \<lparr>project_data = mk_project 1 True 5, research_group_data = None,
           links = [mk_project 3 True 3, mk_project 2 True 4,
                    mk_project 4 True 2, mk_project 5 True 1]\<rparr>"
    by (simp add: eval_defs)
  from related_excludes_self_archived_bounded [OF s t ev] s t ev
  show ?thesis by (simp add: mk_project_def)
qed

text \<open>
  Claim C4 says that every ingestion and counter operation swallows a failure of the store,
  the project page included. It does not hold as stated: the project page lets the exception
  of a failed reinforcement escape, and \<^verbatim>\<open>register_user_data\<close> answers a failure with
  status 400.
\<close>

theorem store_failure_surfaces_counterexample:
  "user_facing_error (fst (project_page clicking (\<lambda>a b amount. unavailable) ())) \<and>
   user_facing_error
     (fst (register_user_data visitor (\<lambda>p n. unavailable) (\<lambda>p s. unavailable) 1 ()))"
  by (simp add: user_facing_error_def project_page_def register_user_data_def unavailable_def
      visitor_def clicking_def)

text \<open>
  Claim C4 as amended: \<^verbatim>\<open>add_view\<close> and \<^verbatim>\<open>update_recommendations\<close> are best-effort.
  Whatever the store operation does, the view answers with status 200: the JSON body
  \<^verbatim>\<open>{'success': True}\<close> when the operation succeeded, the empty body when it failed; and it
  prints its message exactly when the operation failed. \<^verbatim>\<open>register_user_data\<close> answers
  with status 400 exactly when its \<^verbatim>\<open>try\<close> block raised, and with status 200 otherwise.
\<close>

theorem best_effort_views:
  "fst (add_view ctx avc p_id db) =
     (if fst (avc p_id 1 db) = None
      then Inr (Json_tuple (JObj [(''success'', JBool True)]) 200 content_json)
      else Inr (Text [])) \<and>
   reply_status (fst (add_view ctx avc p_id db)) = Some 200 \<and>
   \<not> user_facing_error (fst (add_view ctx avc p_id db)) \<and>
   fst (snd (add_view ctx avc p_id db)) =
     (if fst (avc p_id 1 db) = None then []
      else [''Failed to count a view for project '' @ str_int p_id @ ''.'']) \<and>
   fst (update_recommendations ctx ump p1 p2 amount db) =
     (if fst (ump p1 p2 amount db) = None
      then Inr (Json_tuple (JObj [(''success'', JBool True)]) 200 content_json)
      else Inr (Text [])) \<and>
   reply_status (fst (update_recommendations ctx ump p1 p2 amount db)) = Some 200 \<and>
   \<not> user_facing_error (fst (update_recommendations ctx ump p1 p2 amount db)) \<and>
   fst (snd (update_recommendations ctx ump p1 p2 amount db)) =
     (if fst (ump p1 p2 amount db) = None then []
      else [''Failed to update recommendations for project '' @ str_int p1
              @ '' and project '' @ str_int p2 @ ''.'']) \<and>
   reply_status (fst (register_user_data ctx avc apc p_id db)) =
     Some (if register_raises ctx avc apc p_id db then 400 else 200) \<and>
   user_facing_error (fst (register_user_data ctx avc apc p_id db)) =
     register_raises ctx avc apc p_id db"
proof -
  have av: "fst (add_view ctx avc p_id db) =
      (if fst (avc p_id 1 db) = None
       then Inr (Json_tuple (JObj [(''success'', JBool True)]) 200 content_json)
       else Inr (Text []))"
    by (auto simp: add_view_def split: prod.splits option.splits)
  have av_print: "fst (snd (add_view ctx avc p_id db)) =
      (if fst (avc p_id 1 db) = None then []
       else [''Failed to count a view for project '' @ str_int p_id @ ''.''])"
    by (auto simp: add_view_def split: prod.splits option.splits)
  have ur: "fst (update_recommendations ctx ump p1 p2 amount db) =
      (if fst (ump p1 p2 amount db) = None
       then Inr (Json_tuple (JObj [(''success'', JBool True)]) 200 content_json)
       else Inr (Text []))"
    by (auto simp: update_recommendations_def split: prod.splits option.splits)
  have ur_print: "fst (snd (update_recommendations ctx ump p1 p2 amount db)) =
      (if fst (ump p1 p2 amount db) = None then []
       else [''Failed to update recommendations for project '' @ str_int p1
               @ '' and project '' @ str_int p2 @ ''.''])"
    by (auto simp: update_recommendations_def split: prod.splits option.splits)
  have reg: "reply_status (fst (register_user_data ctx avc apc p_id db)) =
      Some (if register_raises ctx avc apc p_id db then 400 else 200)"
    by (auto simp: register_user_data_def register_raises_def reply_status_def Let_def
        split: prod.splits option.splits)
  have reg_err: "user_facing_error (fst (register_user_data ctx avc apc p_id db)) =
      register_raises ctx avc apc p_id db"
    by (auto simp: register_user_data_def register_raises_def user_facing_error_def Let_def
        split: prod.splits option.splits)
  have av_status: "reply_status (fst (add_view ctx avc p_id db)) = Some 200"
    by (simp add: av reply_status_def)
  have av_err: "\<not> user_facing_error (fst (add_view ctx avc p_id db))"
    by (simp add: av user_facing_error_def)
  have ur_status: "reply_status (fst (update_recommendations ctx ump p1 p2 amount db)) = Some 200"
    by (simp add: ur reply_status_def)
  have ur_err: "\<not> user_facing_error (fst (update_recommendations ctx ump p1 p2 amount db))"
    by (simp add: ur user_facing_error_def)
  from av av_status av_err av_print ur ur_status ur_err ur_print reg reg_err
  show ?thesis by blast
qed

text \<open>
  Claim C5: after any finite sequence of click-throughs (each +0.05) and manual adjustments
  (any amount, of either sign), the strength of every pair lies between 0 and 1.
\<close>

theorem strength_clamped:
  "0 \<le> get_strength (ingest_all sigs) a b \<and> get_strength (ingest_all sigs) a b \<le> 1"
  by (rule bounded_get_strength [OF ingest_all_bounded])

text \<open>
  Claim C6: a click-through from \<open>a\<close> to \<open>b\<close> makes exactly one call of
  \<^verbatim>\<open>update_match_percent\<close>, for that pair and with the fixed amount 0.05: the database the
  view leaves is the one that single call leaves, and the view fails only if the call does.
  This holds for any implementation of the method, and whether or not \<open>a\<close> and \<open>b\<close>
  differ.
\<close>

theorem click_through_one_fixed_increment:
  assumes "args ctx ''from'' = Some a" and "args ctx ''project_id'' = Some b"
  shows "snd (snd (project_page ctx ump db)) = snd (ump a b (5 / 100) db) \<and>
         fst (project_page ctx ump db) =
           (case fst (ump a b (5 / 100) db) of
              None \<Rightarrow> Inr (Template ''project.html'')
            | Some e \<Rightarrow> Inl e)"
  using assms by (simp add: project_page_def split: prod.splits option.splits)

theorem click_through_one_fixed_increment_witness:
  "args clicking ''from'' = Some ''10'' \<and> args clicking ''project_id'' = Some ''11'' \<and>
   snd (snd (project_page clicking update_match_percent [])) = [((''10'', ''11''), 1 / 20)] \<and>
   fst (project_page clicking update_match_percent []) = Inr (Template ''project.html'')"
proof -
  have a: "args clicking ''from'' = Some ''10''"
    by (simp add: clicking_def)
  have b: "args clicking ''project_id'' = Some ''11''"
    by (simp add: clicking_def)
  have call: "update_match_percent ''10'' ''11'' (5 / 100) [] = (None, [((''10'', ''11''), 1 / 20)])"
    by (simp add: update_match_percent_def reinforce_def get_strength_def pair_key_def
        clamp01_def Let_def)
  from click_through_one_fixed_increment [OF a b, of update_match_percent "[]"] a b call
  show ?thesis by simp
qed

text \<open>
  Claim C7: affinity is symmetric over the unordered pair. For every store and every two
  projects the strength of \<open>(a, b)\<close> is that of \<open>(b, a)\<close>. A link between two distinct
  projects \<open>a\<close> and \<open>b\<close> is among the links of \<open>a\<close>, with \<open>b\<close> as the other
  project, and among the links of \<open>b\<close>, with \<open>a\<close> as the other project, whichever of
  the two the store keeps first. And a link among the four that the selection is handed for a
  project puts the other project among the related projects the view returns.
\<close>

theorem affinity_symmetric_candidates:
  fixes st :: "int store" and a b :: int
  shows "get_strength st a b = get_strength st b a \<and>
         (a \<noteq> b \<and> map_of st (pair_key a b) = Some s \<longrightarrow>
            (b, s) \<in> set (links_involving st a) \<and> (a, s) \<in> set (links_involving st b)) \<and>
         ((b, s) \<in> set (top_links st a 4) \<and>
          get_all_project_data ctx (spec_dao base catalog st) a = Inr ra \<longrightarrow>
            b \<in> project_id ` set (links ra)) \<and>
         ((a, s) \<in> set (top_links st b 4) \<and>
          get_all_project_data ctx (spec_dao base catalog st) b = Inr rb \<longrightarrow>
            a \<in> project_id ` set (links rb))"
proof -
  let ?d = "spec_dao base catalog st"
  have sym: "get_strength st a b = get_strength st b a"
    by (simp add: get_strength_def pair_key_sym [of a b])
  have cand: "(b, s) \<in> set (links_involving st a) \<and> (a, s) \<in> set (links_involving st b)"
    if ne: "a \<noteq> b" and link: "map_of st (pair_key a b) = Some s"
  proof -
    have "(b, s) \<in> set (links_involving st a)"
      using links_involving_link [OF link ne] .
    moreover have "(a, s) \<in> set (links_involving st b)"
      using links_involving_link [of st b a s] link ne by (simp add: pair_key_sym [of b a])
    ultimately show ?thesis by simp
  qed
  have contributes: "y \<in> project_id ` set (links r)"
    if top: "(y, s) \<in> set (top_links st x 4)"
      and r: "get_all_project_data ctx ?d x = Inr r" for x y r
  proof -
    from r obtain archive ls linked where
      ls: "get_links_for_project ?d x = Inr ls"
      and linked: "add_linked (get_project ?d) (\<not> truthy archive) ls [] = Inr linked"
      and rest: "(4 \<le> length linked \<and> links r = linked) \<or>
         (length linked < 4 \<and>
          (\<exists>mv. get_most_viewed_projects ?d 8 (\<not> truthy archive) = Inr mv \<and>
                fill_most_viewed x mv 0 linked = Inr (links r)))"
      by (rule get_all_project_data_Inr)
    from ls have ls_eq:
      "ls = map (\<lambda>(other, s). \<lparr>project_1 = x, project_2 = other, match_percent = s\<rparr>)
              (top_links st x 4)"
      by (simp add: spec_dao_def links_for_project_def)
    then have len: "length [] + length ls \<le> 4"
      by (simp add: top_links_def)
    have "\<lparr>project_1 = x, project_2 = y, match_percent = s\<rparr> \<in> set ls"
      using top unfolding ls_eq set_map by force
    from add_linked_all [OF linked len this] obtain q
      where q: "fetch_project catalog y (\<not> truthy archive) = Inr q" and mem: "q \<in> set linked"
      by (auto simp: spec_dao_def)
    from rest have "set linked \<subseteq> set (links r)"
      by (auto dest: fill_most_viewed_keeps)
    with mem fetch_project_Inr [OF q] show ?thesis by force
  qed
  from sym cand contributes [of b a ra] contributes [of a b rb]
  show ?thesis by blast
qed

theorem affinity_symmetric_candidates_witness:
  "(2::int) \<noteq> 1 \<and> map_of (ingest_all two_signals) (pair_key 2 1) = Some (1 / 20) \<and>
   (1, 1 / 20) \<in> set (top_links (ingest_all two_signals) 2 4) \<and>
   (2, 1 / 20) \<in> set (top_links (ingest_all two_signals) 1 4) \<and>
   (\<exists>r2 r1.
      get_all_project_data browsing (spec_dao plain_dao six_projects (ingest_all two_signals)) 2
        = Inr r2 \<and>
      get_all_project_data browsing (spec_dao plain_dao six_projects (ingest_all two_signals)) 1
        = Inr r1 \<and>
      map project_id (links r2) = [1, 3, 4, 5] \<and> map project_id (links r1) = [3, 2, 4, 5] \<and>
      get_strength (ingest_all two_signals) 2 1 = get_strength (ingest_all two_signals) 1 2 \<and>
      (1, 1 / 20) \<in> set (links_involving (ingest_all two_signals) 2) \<and>
      (2, 1 / 20) \<in> set (links_involving (ingest_all two_signals) 1) \<and>
      1 \<in> project_id ` set (links r2) \<and> 2 \<in> project_id ` set (links r1))"
proof -
  let ?st = "ingest_all two_signals"
  let ?d = "spec_dao plain_dao six_projects ?st"
  have st: "?st = [((1, 2), 1 / 20), ((1, 3), 4 / 10)]"
    by (simp add: two_signals_def ingest_all_def update_match_percent_def reinforce_def
        get_strength_def pair_key_def clamp01_def Let_def)
  have ne: "(2::int) \<noteq> 1"
    by simp
  have link: "map_of ?st (pair_key 2 1) = Some (1 / 20)"
    by (simp add: st pair_key_def)
  have top2: "(1, 1 / 20) \<in> set (top_links ?st 2 4)"
    by (simp add: st top_links_def links_involving_def sort_by_def stronger_def)
  have top1: "(2, 1 / 20) \<in> set (top_links ?st 1 4)"
    by (simp add: st top_links_def links_involving_def sort_by_def stronger_def)
  have ev2: "get_all_project_data browsing ?d 2 =
      Inr \<lparr>project_data = mk_project 2 True 4, research_group_data = None,
           links = [mk_project 1 True 5, mk_project 3 True 3,
                    mk_project 4 True 2, mk_project 5 True 1]\<rparr>"
    by (simp add: eval_defs)
  have ev1: "get_all_project_data browsing ?d 1 =
      Inr \<lparr>project_data = mk_project 1 True 5, research_group_data = None,
           links = [mk_project 3 True 3, mk_project 2 True 4,
                    mk_project 4 True 2, mk_project 5 True 1]\<rparr>"
    by (simp add: eval_defs)
  let ?r2 = "\<lparr>project_data = mk_project 2 True 4, research_group_data = None,
              links = [mk_project 1 True 5, mk_project 3 True 3,
                       mk_project 4 True 2, mk_project 5 True 1]\<rparr>"
  let ?r1 = "\<lparr>project_data = mk_project 1 True 5, research_group_data = None,
              links = [mk_project 3 True 3, mk_project 2 True 4,
                       mk_project 4 True 2, mk_project 5 True 1]\<rparr>"
  have inst: "get_strength ?st 2 1 = get_strength ?st 1 2 \<and>
      ((2::int) \<noteq> 1 \<and> map_of ?st (pair_key 2 1) = Some (1 / 20) \<longrightarrow>
         (1, 1 / 20) \<in> set (links_involving ?st 2) \<and> (2, 1 / 20) \<in> set (links_involving ?st 1)) \<and>
      ((1, 1 / 20) \<in> set (top_links ?st 2 4) \<and> get_all_project_data browsing ?d 2 = Inr ?r2 \<longrightarrow>
         1 \<in> project_id ` set (links ?r2)) \<and>
      ((2, 1 / 20) \<in> set (top_links ?st 1 4) \<and> get_all_project_data browsing ?d 1 = Inr ?r1 \<longrightarrow>
         2 \<in> project_id ` set (links ?r1))"
    by (rule affinity_symmetric_candidates)
  from inst ne link top2 top1 ev2 ev1 have
    "get_strength ?st 2 1 = get_strength ?st 1 2"
    "(1, 1 / 20) \<in> set (links_involving ?st 2)"
    "(2, 1 / 20) \<in> set (links_involving ?st 1)"
    "1 \<in> project_id ` set (links ?r2)"
    "2 \<in> project_id ` set (links ?r1)"
    by blast+
  with ne link top2 top1 ev2 ev1 show ?thesis
    by (simp add: mk_project_def)
qed

text \<open>
  Claim C8 calls the manual adjustment privileged. It does not hold as stated: the request of
  a caller who is not logged in is carried out, with the same answer and the same store as the
  request of an administrator.
\<close>

theorem adjustment_open_to_anonymous_counterexample:
  "update_recommendations (visitor\<lparr>current_user := anonymous\<rparr>) update_match_percent 1 2 (1 / 2) [] =
     (Inr (Json_tuple (JObj [(''success'', JBool True)]) 200 content_json), [], [((1, 2), 1 / 2)]) \<and>
   update_recommendations (visitor\<lparr>current_user := anonymous\<rparr>) update_match_percent 1 2 (1 / 2) [] =
   update_recommendations (visitor\<lparr>current_user := admin\<rparr>) update_match_percent 1 2 (1 / 2) []"
  by (simp add: update_recommendations_def update_match_percent_def reinforce_def get_strength_def
      pair_key_def clamp01_def Let_def)

text \<open>
  Claim C8 as amended: \<^verbatim>\<open>update_recommendations\<close> has no authorization check. For every
  caller, whatever the user and the session of the request, it makes the call
  \<^verbatim>\<open>update_match_percent(p1_id, p2_id, amount)\<close>: the database it leaves is the one that
  call leaves, it answers with success when the call returned, and its answer, its prints and
  its database are the same for any two callers. On the affinity store this means that the
  adjustment of a caller who is not logged in is applied: the strength of a pair of distinct
  projects becomes the clamped sum.
\<close>

theorem update_recommendations_ignores_caller:
  "snd (snd (update_recommendations ctx ump p1 p2 amount db)) = snd (ump p1 p2 amount db) \<and>
   fst (update_recommendations ctx ump p1 p2 amount db) =
     (if fst (ump p1 p2 amount db) = None
      then Inr (Json_tuple (JObj [(''success'', JBool True)]) 200 content_json)
      else Inr (Text [])) \<and>
   update_recommendations ctx ump p1 p2 amount db =
     update_recommendations ctx' ump p1 p2 amount db \<and>
   get_strength
     (snd (snd (update_recommendations (ctx\<lparr>current_user := anonymous\<rparr>)
                  update_match_percent p1 p2 amount st))) p1 p2 =
     (if p1 = p2 then get_strength st p1 p2 else clamp01 (get_strength st p1 p2 + amount))"
proof -
  have db: "snd (snd (update_recommendations ctx ump p1 p2 amount db)) = snd (ump p1 p2 amount db)"
    by (auto simp: update_recommendations_def split: prod.splits option.splits)
  have reply: "fst (update_recommendations ctx ump p1 p2 amount db) =
      (if fst (ump p1 p2 amount db) = None
       then Inr (Json_tuple (JObj [(''success'', JBool True)]) 200 content_json)
       else Inr (Text []))"
    by (auto simp: update_recommendations_def split: prod.splits option.splits)
  have same: "update_recommendations ctx ump p1 p2 amount db =
      update_recommendations ctx' ump p1 p2 amount db"
    by (simp add: update_recommendations_def)
  have applied: "get_strength
      (snd (snd (update_recommendations (ctx\<lparr>current_user := anonymous\<rparr>)
                   update_match_percent p1 p2 amount st))) p1 p2 =
      (if p1 = p2 then get_strength st p1 p2 else clamp01 (get_strength st p1 p2 + amount))"
  proof -
    have "snd (snd (update_recommendations (ctx\<lparr>current_user := anonymous\<rparr>)
                      update_match_percent p1 p2 amount st)) =
          snd (update_match_percent p1 p2 amount st)"
      by (auto simp: update_recommendations_def split: prod.splits option.splits)
    then show ?thesis
      by (simp add: update_match_percent_def reinforce_def Let_def get_strength_def update_conv')
  qed
  from db reply same applied show ?thesis by blast
qed

text \<open>
  Claim C9: when the \<^verbatim>\<open>try\<close> block of \<^verbatim>\<open>register_user_data\<close> raises, the answer has
  status 400 and a body whose \<^verbatim>\<open>success\<close> is \<^verbatim>\<open>True\<close>, next to the failure message.
\<close>

theorem register_user_data_failure_reply:
  assumes "register_raises ctx avc apc p_id db"
  shows "\<exists>v. fst (register_user_data ctx avc apc p_id db) = Inr v \<and> status_code v = 400 \<and>
           body_field v ''success'' = Some (JBool True) \<and>
           body_field v ''message'' =
             Some (JStr (''Failed to register user behaviour for project '' @ str_int p_id @ ''.''))"
  using assms
  by (auto simp: register_user_data_def register_raises_def body_field_def Let_def
      split: prod.splits option.splits if_splits)

theorem register_user_data_failure_reply_witness:
  "register_raises visitor (\<lambda>p n. unavailable) (\<lambda>p s. unavailable) 7 () \<and>
   (\<exists>v. fst (register_user_data visitor (\<lambda>p n. unavailable) (\<lambda>p s. unavailable) 7 ()) = Inr v \<and>
        status_code v = 400 \<and> body_field v ''success'' = Some (JBool True) \<and>
        body_field v ''message'' =
          Some (JStr ''Failed to register user behaviour for project 7.''))"
proof -
  have raises: "register_raises visitor (\<lambda>p n. unavailable) (\<lambda>p s. unavailable) 7 ()"
    by (simp add: register_raises_def unavailable_def)
  have seven: "str_int 7 = ''7''"
    by (simp add: str_int_def str_nat.simps)
  from register_user_data_failure_reply [OF raises] raises seven
  show ?thesis by simp
qed

text \<open>
  Claim C10: \<^verbatim>\<open>get_all_project_data\<close> reads \<^verbatim>\<open>session["archive"]\<close>, so a request whose
  session has no such key ends in \<^verbatim>\<open>KeyError\<close>; \<^verbatim>\<open>search\<close>, which reads
  \<^verbatim>\<open>session.get("archive")\<close>, runs with the active-only filter on.
\<close>

theorem get_all_project_data_needs_archive_key:
  assumes "session ctx ''archive'' = None"
  shows "get_all_project_data ctx d p_id = Inl KeyError \<and>
         search ctx project_search q = and_then (project_search q True) (\<lambda>r. Inr (Json r))"
  using assms
  by (simp add: get_all_project_data_def search_def session_item_def session_get_def and_then_def)

theorem get_all_project_data_needs_archive_key_witness:
  "session visitor ''archive'' = None \<and>
   get_all_project_data visitor (spec_dao plain_dao six_projects []) 1 = Inl KeyError \<and>
   search visitor (\<lambda>q active_only. Inr (JBool active_only)) ''graph'' = Inr (Json (JBool True))"
proof -
  have none: "session visitor ''archive'' = None"
    by (simp add: visitor_def)
  from get_all_project_data_needs_archive_key
         [OF none, of "spec_dao plain_dao six_projects []" 1
            "\<lambda>q active_only. Inr (JBool active_only)" "''graph''"] none
  show ?thesis by (simp add: and_then_def)
qed

end
